theory Spec2Isabelle
  imports Complex_Main
begin

section \<open>Python strings\<close>

text \<open>
  A Python \<open>str\<close> is a sequence of Unicode code points, and \<open>len\<close>, indexing, \<open>upper\<close> and
  the \<open>re\<close> module all work on code points. A string is therefore a list of code points,
  each a natural number. \<open>str ''D 1234 ABC''\<close> is the string of an ASCII literal.
\<close>

type_synonym codepoint = nat
type_synonym pystr = "codepoint list"

abbreviation str :: "string \<Rightarrow> pystr" where
  "str s \<equiv> map of_char s"

text \<open>
  What \<open>str.upper\<close>, \<open>\s\<close> and \<open>\d\<close> do on ASCII is written out below. What they do on a
  code point from 128 on is read from the Unicode character database of the interpreter,
  which is no part of the repository: it is a parameter of the model.
  \<^item> \<open>uc_upper c\<close>: the full uppercase mapping of \<open>c\<close> (one to three code points);
  \<^item> \<open>uc_space c\<close>: whether \<open>c\<close> is Unicode whitespace;
  \<^item> \<open>uc_decimal c\<close>: whether \<open>c\<close> is a Unicode decimal digit.
\<close>

record unicode_db =
  uc_upper :: "codepoint \<Rightarrow> pystr"
  uc_space :: "codepoint \<Rightarrow> bool"
  uc_decimal :: "codepoint \<Rightarrow> bool"

text \<open>\<open>\s\<close> of a \<open>str\<close> pattern: on ASCII, tab to carriage return (9-13), the four
  separators 28-31 and the space.\<close>

definition is_space :: "unicode_db \<Rightarrow> codepoint \<Rightarrow> bool" where
  "is_space U c =
     (if c < 128 then (9 \<le> c \<and> c \<le> 13) \<or> (28 \<le> c \<and> c \<le> 32) else uc_space U c)"

text \<open>\<open>\d\<close> of a \<open>str\<close> pattern: on ASCII, \<open>0\<close> to \<open>9\<close>.\<close>

definition is_decimal :: "unicode_db \<Rightarrow> codepoint \<Rightarrow> bool" where
  "is_decimal U c = (if c < 128 then 48 \<le> c \<and> c \<le> 57 else uc_decimal U c)"

text \<open>\<open>str.upper\<close> maps each code point on its own, with no context: on ASCII, \<open>a\<close> to \<open>z\<close>
  go to \<open>A\<close> to \<open>Z\<close> and everything else stays.\<close>

definition upper_char :: "unicode_db \<Rightarrow> codepoint \<Rightarrow> pystr" where
  "upper_char U c =
     (if c < 128 then (if 97 \<le> c \<and> c \<le> 122 then [c - 32] else [c]) else uc_upper U c)"

definition upper :: "unicode_db \<Rightarrow> pystr \<Rightarrow> pystr" where
  "upper U text = concat (map (upper_char U) text)"

text \<open>\<open>re.sub(r'\s+', '', text)\<close>: scanning from the left, every maximal run of whitespace
  is replaced by the empty string and every other code point is copied.\<close>

function re_sub_spaces :: "unicode_db \<Rightarrow> pystr \<Rightarrow> pystr" where
  "re_sub_spaces U [] = []"
| "re_sub_spaces U (c # cs) =
     (if is_space U c then re_sub_spaces U (dropWhile (is_space U) cs)
      else c # re_sub_spaces U cs)"
  by pat_completeness auto
termination
  by (relation "measure (\<lambda>(U, s). length s)")
     (auto simp: less_Suc_eq_le length_dropWhile_le)

text \<open>\<open>clean_text = re.sub(r'\s+', '', text.upper())\<close>\<close>

definition clean_text :: "unicode_db \<Rightarrow> pystr \<Rightarrow> pystr" where
  "clean_text U text = re_sub_spaces U (upper U text)"

section \<open>The plate pattern and \<open>re.match\<close>\<close>

text \<open>
  \<open>pattern = r'^([A-Z]{1,2})(\d{1,4})([A-Z]{1,3})$'\<close> is a sequence of three capturing
  groups, each a character class under a bounded greedy repetition, between \<open>^\<close> and \<open>$\<close>.
\<close>

datatype charclass = Range codepoint codepoint | Decimal

fun in_class :: "unicode_db \<Rightarrow> charclass \<Rightarrow> codepoint \<Rightarrow> bool" where
  "in_class U (Range a b) c = (a \<le> c \<and> c \<le> b)"
| "in_class U Decimal c = is_decimal U c"

datatype item = Group charclass nat nat

definition pattern :: "item list" where
  "pattern =
     [Group (Range (of_char (CHR ''A'')) (of_char (CHR ''Z''))) 1 2,
      Group Decimal 1 4,
      Group (Range (of_char (CHR ''A'')) (of_char (CHR ''Z''))) 1 3]"

text \<open>\<open>$\<close> without \<open>re.MULTILINE\<close> matches at the end of the string and also just before
  a newline that is the last character.\<close>

definition at_end :: "pystr \<Rightarrow> bool" where
  "at_end s = (s = [] \<or> s = [10])"

text \<open>
  A greedy repetition \<open>{lo,n}\<close> of a class, followed by the rest of the pattern \<open>k\<close>: the
  backtracking matcher takes the longest count first and gives one repetition back each
  time the rest of the pattern fails, down to \<open>lo\<close>. The result is the list of the
  captured groups, this group first.
\<close>

fun greedy ::
  "(pystr \<Rightarrow> pystr list option) \<Rightarrow> (codepoint \<Rightarrow> bool) \<Rightarrow> nat \<Rightarrow> nat \<Rightarrow> pystr
     \<Rightarrow> pystr list option" where
  "greedy k P lo 0 s =
     (if lo = 0 then (case k s of Some gs \<Rightarrow> Some ([] # gs) | None \<Rightarrow> None) else None)"
| "greedy k P lo (Suc n) s =
     (if Suc n < lo then None
      else if Suc n \<le> length s \<and> list_all P (take (Suc n) s) then
        (case k (drop (Suc n) s) of
           Some gs \<Rightarrow> Some (take (Suc n) s # gs)
         | None \<Rightarrow> greedy k P lo n s)
      else greedy k P lo n s)"

primrec match_items :: "unicode_db \<Rightarrow> item list \<Rightarrow> pystr \<Rightarrow> pystr list option" where
  "match_items U [] = (\<lambda>s. if at_end s then Some [] else None)"
| "match_items U (it # its) =
     (case it of Group cls lo hi \<Rightarrow> greedy (match_items U its) (in_class U cls) lo hi)"

text \<open>\<open>re.match(pattern, s)\<close>: the match starts at the beginning of \<open>s\<close> (which is also
  where \<open>^\<close> holds). \<open>None\<close> is Python's \<open>None\<close>; a match object is the list of its groups.\<close>

definition re_match :: "unicode_db \<Rightarrow> item list \<Rightarrow> pystr \<Rightarrow> pystr list option" where
  "re_match U p s = match_items U p s"

text \<open>The exceptions that the functions can raise: a missing group, a missing key, and a
  missing attribute of an object.\<close>

datatype py_error = IndexError | KeyError | AttributeError

text \<open>\<open>match.group(i)\<close> raises \<open>IndexError\<close> when the pattern has no group \<open>i\<close>.\<close>

definition group :: "pystr list \<Rightarrow> nat \<Rightarrow> py_error + pystr" where
  "group m i = (if 1 \<le> i \<and> i \<le> length m then Inr (m ! (i - 1)) else Inl IndexError)"

section \<open>\<open>extract_indonesian_plate_format\<close>\<close>

text \<open>\<open>f"{region_code} {numbers} {suffix}"\<close>\<close>

definition format_plate :: "pystr \<Rightarrow> pystr \<Rightarrow> pystr \<Rightarrow> pystr" where
  "format_plate region_code numbers suffix =
     region_code @ str '' '' @ numbers @ str '' '' @ suffix"

definition extract_indonesian_plate_format ::
  "unicode_db \<Rightarrow> pystr \<Rightarrow> py_error + (pystr option \<times> pystr option)" where
  "extract_indonesian_plate_format U text =
     (case re_match U pattern (clean_text U text) of
        Some m \<Rightarrow>
          (case group m 1 of Inl e \<Rightarrow> Inl e | Inr region_code \<Rightarrow>
          (case group m 2 of Inl e \<Rightarrow> Inl e | Inr numbers \<Rightarrow>
          (case group m 3 of Inl e \<Rightarrow> Inl e | Inr suffix \<Rightarrow>
             Inr (Some (format_plate region_code numbers suffix), Some region_code))))
      | None \<Rightarrow> Inr (None, None))"

section \<open>\<open>cityCode_dict\<close> and \<open>get_region_info\<close>\<close>

text \<open>A value of the dictionary is a string or a list of strings; \<open>isinstance(regions, list)\<close>
  tells them apart.\<close>

datatype region_value = Single pystr | Multiple "pystr list"

definition cityCode_dict :: "(pystr \<times> region_value) list" where
  "cityCode_dict =
     [(str ''AA'', Multiple [str ''Purworejo'', str ''Temanggung'', str ''Magelang'',
                             str ''Wonosobo'', str ''Kebumen'']),
      (str ''B'', Multiple [str ''DKI Jakarta'', str ''Bekasi'', str ''Depok'', str ''Tangerang'']),
      (str ''D'', Multiple [str ''Bandung'', str ''Bandung Barat'', str ''Cimahi'']),
      (str ''AG'', Multiple [str ''Tulungagung'', str ''Kediri'', str ''Blitar'',
                             str ''Trenggalek'', str ''Nganjuk'']),
      (str ''BA'', Single (str ''Sumatera Barat'')),
      (str ''BP'', Single (str ''Kepulauan Riau'')),
      (str ''DK'', Single (str ''Bali'')),
      (str ''H'', Single (str ''Semarang'')),
      (str ''L'', Single (str ''Surabaya'')),
      (str ''M'', Single (str ''Madura'')),
      (str ''N'', Multiple [str ''Malang'', str ''Pasuruan'', str ''Probolinggo'', str ''Batu'',
                            str ''Lumajang'']),
      (str ''PA'', Single (str ''Papua'')),
      (str ''PB'', Single (str ''Papua Barat'')),
      (str ''S'', Multiple [str ''Tuban'', str ''Jombang'', str ''Bojonegoro'', str ''Lamongan'',
                            str ''Mojokerto'']),
      (str ''W'', Multiple [str ''Gresik'', str ''Sidoarjo''])]"

text \<open>\<open>key in d\<close> and \<open>d[key]\<close>; the subscript raises \<open>KeyError\<close> on a missing key.\<close>

definition contains :: "('k \<times> 'v) list \<Rightarrow> 'k \<Rightarrow> bool" where
  "contains d key = (map_of d key \<noteq> None)"

definition getitem :: "('k \<times> 'v) list \<Rightarrow> 'k \<Rightarrow> py_error + 'v" where
  "getitem d key = (case map_of d key of None \<Rightarrow> Inl KeyError | Some v \<Rightarrow> Inr v)"

text \<open>\<open>sep.join(xs)\<close>\<close>

fun join :: "pystr \<Rightarrow> pystr list \<Rightarrow> pystr" where
  "join sep [] = []"
| "join sep [x] = x"
| "join sep (x # y # ys) = x @ sep @ join sep (y # ys)"

definition get_region_info :: "pystr \<Rightarrow> py_error + pystr" where
  "get_region_info code =
     (if contains cityCode_dict code then
        (case getitem cityCode_dict code of
           Inl e \<Rightarrow> Inl e
         | Inr regions \<Rightarrow>
             (case regions of
                Multiple names \<Rightarrow> Inr (join (str '', '') names)
              | Single name \<Rightarrow> Inr name))
      else Inr (str ''Region not found in database''))"

section \<open>\<open>process_alpr_results\<close>\<close>

text \<open>
  \<open>alpr_instance.predict(frame)\<close> is a call into the library \<open>fast_alpr\<close>, which is no
  part of the repository. It returns a list of \<open>ALPRResult\<close> objects. \<open>ALPRResult\<close> is a
  data class with exactly two attributes: \<open>detection\<close>, the result of the detector with the
  bounding box in it, and \<open>ocr\<close>, which is an \<open>OcrResult\<close> or \<open>None\<close>. An \<open>OcrResult\<close> has the
  attributes \<open>text\<close> and \<open>confidence\<close>. The detection and the confidence are never looked
  into, so their types are left open.
\<close>

record 'c ocr_result =
  ocr_text :: pystr
  ocr_confidence :: 'c

record ('c, 'd) alpr_result =
  detection :: 'd
  ocr :: "'c ocr_result option"

text \<open>
  The attribute reads of the loop. Reading an attribute of \<open>None\<close> raises
  \<open>AttributeError\<close>, so \<open>prediction.ocr.text\<close> and \<open>prediction.ocr.confidence\<close> raise when
  \<open>ocr\<close> is \<open>None\<close>. Reading an attribute that the object does not have raises
  \<open>AttributeError\<close> too, and an \<open>ALPRResult\<close> has no attribute \<open>bbox_xyxy\<close>.
\<close>

definition prediction_ocr_text :: "('c, 'd) alpr_result \<Rightarrow> py_error + pystr" where
  "prediction_ocr_text prediction =
     (case ocr prediction of None \<Rightarrow> Inl AttributeError | Some r \<Rightarrow> Inr (ocr_text r))"

definition prediction_ocr_confidence :: "('c, 'd) alpr_result \<Rightarrow> py_error + 'c" where
  "prediction_ocr_confidence prediction =
     (case ocr prediction of None \<Rightarrow> Inl AttributeError | Some r \<Rightarrow> Inr (ocr_confidence r))"

definition prediction_bbox_xyxy :: "('c, 'd) alpr_result \<Rightarrow> py_error + real list" where
  "prediction_bbox_xyxy prediction = Inl AttributeError"

text \<open>The dictionary \<open>plate_info\<close> has six fixed keys and is a record. The source
  documents the value of \<open>bbox\<close> as the coordinates \<open>[x1, y1, x2, y2]\<close>.\<close>

record 'c plate_info =
  original_text :: pystr
  formatted_plate :: pystr
  region_code :: pystr
  region_info :: pystr
  confidence :: 'c
  bbox :: "real list"

text \<open>The truth value of \<open>x\<close> in \<open>if x\<close>, for \<open>x\<close> a string or \<open>None\<close>.\<close>

fun truthy :: "pystr option \<Rightarrow> bool" where
  "truthy None = False"
| "truthy (Some s) = (s \<noteq> [])"

text \<open>
  The body of the loop: what one prediction appends to \<open>detected_plates\<close>, if anything.
  The values of the dictionary display are evaluated in the order they are written, the
  confidence before the box.
\<close>

definition process_prediction ::
  "unicode_db \<Rightarrow> ('c, 'd) alpr_result \<Rightarrow> py_error + 'c plate_info option" where
  "process_prediction U prediction =
     (case prediction_ocr_text prediction of
        Inl e \<Rightarrow> Inl e
      | Inr raw \<Rightarrow>
          (case extract_indonesian_plate_format U raw of
             Inl e \<Rightarrow> Inl e
           | Inr (fp, rc) \<Rightarrow>
               if truthy fp \<and> truthy rc then
                 (case (fp, rc) of
                    (Some plate, Some code) \<Rightarrow>
                      (case get_region_info code of
                         Inl e \<Rightarrow> Inl e
                       | Inr info \<Rightarrow>
                           (case prediction_ocr_confidence prediction of
                              Inl e \<Rightarrow> Inl e
                            | Inr conf \<Rightarrow>
                                (case prediction_bbox_xyxy prediction of
                                   Inl e \<Rightarrow> Inl e
                                 | Inr box \<Rightarrow>
                                     Inr (Some \<lparr>original_text = raw, formatted_plate = plate,
                                                 region_code = code, region_info = info,
                                                 confidence = conf, bbox = box\<rparr>))))
                  | _ \<Rightarrow> Inr None)
               else Inr None))"

text \<open>The loop over the predictions, with \<open>detected_plates\<close> as its state; an exception
  leaves the loop.\<close>

fun for_prediction ::
  "unicode_db \<Rightarrow> ('c, 'd) alpr_result list \<Rightarrow> 'c plate_info list
     \<Rightarrow> py_error + 'c plate_info list" where
  "for_prediction U [] detected_plates = Inr detected_plates"
| "for_prediction U (p # ps) detected_plates =
     (case process_prediction U p of
        Inl e \<Rightarrow> Inl e
      | Inr None \<Rightarrow> for_prediction U ps detected_plates
      | Inr (Some info) \<Rightarrow> for_prediction U ps (detected_plates @ [info]))"

text \<open>\<open>predictions\<close> is what \<open>alpr_instance.predict(frame)\<close> returned.\<close>

definition process_alpr_results ::
  "unicode_db \<Rightarrow> ('c, 'd) alpr_result list \<Rightarrow> py_error + 'c plate_info list" where
  "process_alpr_results U predictions = for_prediction U predictions []"

text \<open>
  An excerpt of the Unicode character database, for evaluating the functions on concrete
  strings: the case mapping of Latin-1 (with \<open>U+00DF\<close> going to \<open>SS\<close>), the whitespace
  beyond ASCII and the Arabic-Indic digits.
\<close>

definition sample_db :: unicode_db where
  "sample_db =
     \<lparr>uc_upper = (\<lambda>c. if c = 223 then [83, 83]
                       else if c = 181 then [924]
                       else if c = 255 then [376]
                       else if 224 \<le> c \<and> c \<le> 254 \<and> c \<noteq> 247 then [c - 32]
                       else [c]),
      uc_space = (\<lambda>c. c = 133 \<or> c = 160 \<or> c = 5760 \<or> (8192 \<le> c \<and> c \<le> 8202) \<or> c = 8232
                       \<or> c = 8233 \<or> c = 8239 \<or> c = 8287 \<or> c = 12288),
      uc_decimal = (\<lambda>c. 1632 \<le> c \<and> c \<le> 1641)\<rparr>"

section \<open>Definitions for stating the properties\<close>

text \<open>\<open>[A-Z]\<close>, the letters of the plate grammar.\<close>

definition uppercase_letter :: "codepoint \<Rightarrow> bool" where
  "uppercase_letter c = (of_char (CHR ''A'') \<le> c \<and> c \<le> of_char (CHR ''Z''))"

text \<open>\<open>[0-9]\<close>, the digits of the plate grammar.\<close>

definition ascii_digit :: "codepoint \<Rightarrow> bool" where
  "ascii_digit c = (of_char (CHR ''0'') \<le> c \<and> c \<le> of_char (CHR ''9''))"

text \<open>
  The plate grammar in the words of the specification: a region code of one or two
  uppercase letters, a number of one to four digits and a suffix of one to three
  uppercase letters, the letters being \<open>A\<close> to \<open>Z\<close> and the digits \<open>0\<close> to \<open>9\<close>.
\<close>

definition plate_grammar :: "pystr \<Rightarrow> pystr \<Rightarrow> pystr \<Rightarrow> bool" where
  "plate_grammar r n x =
     (1 \<le> length r \<and> length r \<le> 2 \<and> list_all uppercase_letter r \<and>
      1 \<le> length n \<and> length n \<le> 4 \<and> list_all ascii_digit n \<and>
      1 \<le> length x \<and> length x \<le> 3 \<and> list_all uppercase_letter x)"

text \<open>
  The language of the pattern, group by group: the number group is made of what \<open>\d\<close>
  accepts, which beyond ASCII is every decimal digit of the Unicode tables.
\<close>

definition pattern_language :: "unicode_db \<Rightarrow> pystr \<Rightarrow> pystr \<Rightarrow> pystr \<Rightarrow> bool" where
  "pattern_language U r n x =
     (1 \<le> length r \<and> length r \<le> 2 \<and> list_all uppercase_letter r \<and>
      1 \<le> length n \<and> length n \<le> 4 \<and> list_all (is_decimal U) n \<and>
      1 \<le> length x \<and> length x \<le> 3 \<and> list_all uppercase_letter x)"

text \<open>\<open>[A-Z0-9]\<close>, and the characters of the inputs that the idempotence property is
  about: ASCII letters of either case and digits.\<close>

definition plate_char :: "codepoint \<Rightarrow> bool" where
  "plate_char c =
     ((of_char (CHR ''A'') \<le> c \<and> c \<le> of_char (CHR ''Z'')) \<or>
      (of_char (CHR ''0'') \<le> c \<and> c \<le> of_char (CHR ''9'')))"

definition ascii_letter_or_digit :: "codepoint \<Rightarrow> bool" where
  "ascii_letter_or_digit c =
     ((of_char (CHR ''a'') \<le> c \<and> c \<le> of_char (CHR ''z'')) \<or>
      (of_char (CHR ''A'') \<le> c \<and> c \<le> of_char (CHR ''Z'')) \<or>
      (of_char (CHR ''0'') \<le> c \<and> c \<le> of_char (CHR ''9'')))"

text \<open>
  Two facts of the Unicode character database that upper-casing a cleaned text rests on:
  a whitespace code point has no case mapping, and neither has a decimal digit. On ASCII
  both hold by the definitions above; beyond ASCII they are conditions on the parameter.
\<close>

definition spaces_uncased :: "unicode_db \<Rightarrow> bool" where
  "spaces_uncased U = (\<forall>c. is_space U c \<longrightarrow> upper_char U c = [c])"

definition digits_uncased :: "unicode_db \<Rightarrow> bool" where
  "digits_uncased U = (\<forall>c. is_decimal U c \<longrightarrow> upper_char U c = [c])"

text \<open>
  A repetition written without backtracking: the group is the whole leading run of the
  class, its length must lie within the bounds, and the rest of the pattern goes on after
  the run. The greedy matcher computes this whenever the rest of the pattern cannot start
  with a character of the class, as is the case for each group of the plate pattern.
\<close>

definition run_match ::
  "(pystr \<Rightarrow> pystr list option) \<Rightarrow> (codepoint \<Rightarrow> bool) \<Rightarrow> nat \<Rightarrow> nat \<Rightarrow> pystr
     \<Rightarrow> pystr list option" where
  "run_match k P lo hi s =
     (if lo \<le> length (takeWhile P s) \<and> length (takeWhile P s) \<le> hi then
        (case k (dropWhile P s) of Some gs \<Rightarrow> Some (takeWhile P s # gs) | None \<Rightarrow> None)
      else None)"

definition end_of_pattern :: "pystr \<Rightarrow> pystr list option" where
  "end_of_pattern s = (if at_end s then Some [] else None)"

text \<open>Whether a raw text parses.\<close>

definition parses :: "unicode_db \<Rightarrow> pystr \<Rightarrow> bool" where
  "parses U raw = (re_match U pattern (clean_text U raw) \<noteq> None)"

section \<open>Whitespace removal and upper-casing\<close>

lemma filter_dropWhile_not: "filter (\<lambda>c. \<not> P c) (dropWhile P cs) = filter (\<lambda>c. \<not> P c) cs"
  by (induction cs) auto

lemma re_sub_spaces_filter: "re_sub_spaces U s = filter (\<lambda>c. \<not> is_space U c) s"
  by (induction U s rule: re_sub_spaces.induct) (auto simp: filter_dropWhile_not)

lemma clean_text_filter:
  "clean_text U text = filter (\<lambda>c. \<not> is_space U c) (concat (map (upper_char U) text))"
  by (simp add: clean_text_def upper_def re_sub_spaces_filter)

lemma clean_text_append: "clean_text U (s @ t) = clean_text U s @ clean_text U t"
  by (simp add: clean_text_filter)

lemma clean_text_no_space: "\<forall>c\<in>set (clean_text U text). \<not> is_space U c"
  by (simp add: clean_text_filter)

lemma clean_text_fixed:
  "\<forall>c\<in>set t. upper_char U c = [c] \<and> \<not> is_space U c \<Longrightarrow> clean_text U t = t"
  by (induction t) (auto simp: clean_text_filter)

lemma plate_char_fixed: "plate_char c \<Longrightarrow> upper_char U c = [c] \<and> \<not> is_space U c"
  by (auto simp: plate_char_def upper_char_def is_space_def)

lemma upper_char_ascii_letter_or_digit:
  "ascii_letter_or_digit c \<Longrightarrow> \<exists>d. upper_char U c = [d] \<and> plate_char d"
  by (auto simp: ascii_letter_or_digit_def upper_char_def plate_char_def)

lemma clean_text_plate_chars:
  assumes "\<forall>c\<in>set s. (is_space U c \<and> upper_char U c = [c]) \<or> ascii_letter_or_digit c"
  shows "list_all plate_char (clean_text U s)"
  using assms
proof (induction s)
  case Nil
  then show ?case by (simp add: clean_text_filter)
next
  case (Cons c cs)
  then have rest: "list_all plate_char (clean_text U cs)" by simp
  have "clean_text U (c # cs) = clean_text U [c] @ clean_text U cs"
    using clean_text_append [of U "[c]" cs] by simp
  moreover have "list_all plate_char (clean_text U [c])"
  proof (cases "ascii_letter_or_digit c")
    case True
    then obtain d where "upper_char U c = [d]" "plate_char d"
      using upper_char_ascii_letter_or_digit by blast
    then show ?thesis by (simp add: clean_text_filter)
  next
    case False
    with Cons.prems have "is_space U c \<and> upper_char U c = [c]" by simp
    then show ?thesis by (simp add: clean_text_filter)
  qed
  ultimately show ?case using rest by simp
qed

lemma ascii_space_uncased: "c < 128 \<Longrightarrow> is_space U c \<Longrightarrow> upper_char U c = [c]"
  by (auto simp: is_space_def upper_char_def)

lemma ascii_or_spaces_uncased:
  "(\<forall>c\<in>set s. c < 128) \<or> spaces_uncased U \<Longrightarrow>
     \<forall>c\<in>set s. is_space U c \<longrightarrow> upper_char U c = [c]"
  using ascii_space_uncased [of _ U] by (auto simp: spaces_uncased_def)

lemma ascii_decimal_uncased: "c < 128 \<Longrightarrow> is_decimal U c \<Longrightarrow> upper_char U c = [c]"
  by (auto simp: is_decimal_def upper_char_def)

lemma ascii_or_digits_uncased:
  "(\<forall>c\<in>set s. c < 128) \<or> digits_uncased U \<Longrightarrow>
     \<forall>c\<in>set s. is_decimal U c \<longrightarrow> upper_char U c = [c]"
  using ascii_decimal_uncased [of _ U] by (auto simp: digits_uncased_def)

lemma sample_db_spaces: "spaces_uncased sample_db"
  by (auto simp: spaces_uncased_def is_space_def upper_char_def sample_db_def)

lemma sample_db_digits: "digits_uncased sample_db"
  by (auto simp: digits_uncased_def is_decimal_def upper_char_def sample_db_def)

lemma letter_fixed: "uppercase_letter c \<Longrightarrow> upper_char U c = [c] \<and> \<not> is_space U c"
  by (auto simp: uppercase_letter_def upper_char_def is_space_def)

lemma clean_text_letters: "list_all uppercase_letter r \<Longrightarrow> clean_text U r = r"
  using letter_fixed [of _ U] by (intro clean_text_fixed) (auto simp: list_all_iff)

lemma clean_text_blank: "clean_text U (str '' '') = []"
  by (simp add: clean_text_filter upper_char_def is_space_def)

lemma clean_text_format_plate:
  assumes U: "\<forall>c\<in>set n. is_decimal U c \<longrightarrow> upper_char U c = [c]"
    and g: "pattern_language U r n x"
    and ws: "\<forall>c\<in>set n. \<not> is_space U c"
  shows "clean_text U (format_plate r n x) = r @ n @ x"
proof -
  have r: "clean_text U r = r" and x: "clean_text U x = x"
    using g by (simp_all add: pattern_language_def clean_text_letters)
  have "\<forall>c\<in>set n. upper_char U c = [c] \<and> \<not> is_space U c"
    using U g ws by (auto simp: pattern_language_def list_all_iff)
  then have n: "clean_text U n = n"
    by (rule clean_text_fixed)
  show ?thesis
    unfolding format_plate_def
    by (simp only: clean_text_append clean_text_blank r n x append_Nil)
qed

section \<open>The greedy matcher on the plate pattern\<close>

lemma prefix_all_iff:
  "n \<le> length s \<and> list_all P (take n s) \<longleftrightarrow> n \<le> length (takeWhile P s)"
proof (induction s arbitrary: n)
  case Nil
  then show ?case by simp
next
  case (Cons c cs)
  then show ?case by (cases n) auto
qed

lemma take_length_takeWhile: "take (length (takeWhile P s)) s = takeWhile P s"
  by (induction s) auto

lemma drop_length_takeWhile: "drop (length (takeWhile P s)) s = dropWhile P s"
  by (induction s) auto

lemma drop_inside_run:
  "m < length (takeWhile P s) \<Longrightarrow> drop m s \<noteq> [] \<and> P (hd (drop m s))"
proof (induction s arbitrary: m)
  case Nil
  then show ?case by simp
next
  case (Cons c cs)
  then show ?case by (cases m) (auto split: if_splits)
qed

lemma greedy_run:
  assumes k: "\<And>t gs. k t = Some gs \<Longrightarrow> t = [] \<or> \<not> P (hd t)"
  shows "greedy k P lo hi s = run_match k P lo hi s"
proof (induction hi)
  case 0
  show ?case
    using k [of s] by (cases s) (auto simp: run_match_def split: option.splits)
next
  case (Suc n)
  let ?len = "length (takeWhile P s)"
  consider (short) "Suc n < lo" | (eq) "lo \<le> Suc n" "?len = Suc n"
    | (inside) "lo \<le> Suc n" "Suc n < ?len" | (beyond) "lo \<le> Suc n" "?len < Suc n"
    by linarith
  then show ?case
  proof cases
    case short
    then show ?thesis by (auto simp: run_match_def)
  next
    case eq
    have pre: "Suc n \<le> length s \<and> list_all P (take (Suc n) s)"
      using eq(2) prefix_all_iff [of "Suc n" s P] by simp
    have tk: "take (Suc n) s = takeWhile P s" and dr: "drop (Suc n) s = dropWhile P s"
      using take_length_takeWhile [of P s] drop_length_takeWhile [of P s]
      unfolding eq(2) by simp_all
    have rest: "greedy k P lo n s = None"
      using Suc eq(2) by (simp add: run_match_def)
    show ?thesis
      using eq pre rest
      by (simp add: tk dr run_match_def del: take_Suc drop_Suc split: option.splits)
  next
    case inside
    have pre: "Suc n \<le> length s \<and> list_all P (take (Suc n) s)"
      using inside(2) prefix_all_iff [of "Suc n" s P] by simp
    have "drop (Suc n) s \<noteq> [] \<and> P (hd (drop (Suc n) s))"
      using inside(2) by (rule drop_inside_run)
    then have fail: "k (drop (Suc n) s) = None"
      using k [of "drop (Suc n) s"] by (cases "k (drop (Suc n) s)") auto
    have rest: "greedy k P lo n s = None"
      using Suc inside(2) by (simp add: run_match_def)
    show ?thesis
      using inside pre fail rest by (simp add: run_match_def del: take_Suc drop_Suc)
  next
    case beyond
    have pre: "\<not> (Suc n \<le> length s \<and> list_all P (take (Suc n) s))"
      using beyond(2) prefix_all_iff [of "Suc n" s P] by simp
    show ?thesis
      using beyond pre Suc by (auto simp: run_match_def simp del: take_Suc drop_Suc)
  qed
qed

lemma run_match_starts:
  "run_match k P (Suc lo) hi t = Some gs \<Longrightarrow> t \<noteq> [] \<and> P (hd t)"
  by (cases t) (auto simp: run_match_def split: if_splits)

lemma letter_not_decimal: "uppercase_letter c \<Longrightarrow> \<not> is_decimal U c"
  by (auto simp: uppercase_letter_def is_decimal_def)

lemma match_pattern_run_match:
  "re_match U pattern s =
     run_match (run_match (run_match end_of_pattern uppercase_letter 1 3) (is_decimal U) 1 4)
       uppercase_letter 1 2 s"
proof -
  have cls: "in_class U (Range (of_char (CHR ''A'')) (of_char (CHR ''Z''))) = uppercase_letter"
    by (rule ext) (simp add: uppercase_letter_def)
  have dec: "in_class U Decimal = is_decimal U"
    by (rule ext) simp
  have k3: "(\<lambda>s. if at_end s then Some [] else None) = end_of_pattern"
    by (rule ext) (simp add: end_of_pattern_def)
  have g3: "greedy end_of_pattern uppercase_letter 1 3
              = run_match end_of_pattern uppercase_letter 1 3"
  proof (rule ext, rule greedy_run)
    fix t gs assume "end_of_pattern t = Some gs"
    then show "t = [] \<or> \<not> uppercase_letter (hd t)"
      by (auto simp: end_of_pattern_def at_end_def uppercase_letter_def split: if_splits)
  qed
  have g2: "greedy (run_match end_of_pattern uppercase_letter 1 3) (is_decimal U) 1 4
              = run_match (run_match end_of_pattern uppercase_letter 1 3) (is_decimal U) 1 4"
  proof (rule ext, rule greedy_run)
    fix t gs assume "run_match end_of_pattern uppercase_letter 1 3 t = Some gs"
    then have "t \<noteq> [] \<and> uppercase_letter (hd t)"
      using run_match_starts [of end_of_pattern uppercase_letter 0 3 t gs] by simp
    then show "t = [] \<or> \<not> is_decimal U (hd t)"
      by (simp add: letter_not_decimal)
  qed
  have g1: "greedy (run_match (run_match end_of_pattern uppercase_letter 1 3) (is_decimal U) 1 4)
              uppercase_letter 1 2 s
            = run_match (run_match (run_match end_of_pattern uppercase_letter 1 3)
                (is_decimal U) 1 4) uppercase_letter 1 2 s"
  proof (rule greedy_run)
    fix t gs
    assume "run_match (run_match end_of_pattern uppercase_letter 1 3) (is_decimal U) 1 4 t
              = Some gs"
    then have "t \<noteq> [] \<and> is_decimal U (hd t)"
      using run_match_starts
        [of "run_match end_of_pattern uppercase_letter 1 3" "is_decimal U" 0 4 t gs] by simp
    then show "t = [] \<or> \<not> uppercase_letter (hd t)"
      using letter_not_decimal [of "hd t" U] by blast
  qed
  show ?thesis
    unfolding re_match_def pattern_def
    by (simp only: match_items.simps item.case cls dec k3 g3 g2 g1)
qed

lemma list_all_takeWhile: "list_all P (takeWhile P s)"
  by (induction s) auto

lemma run_then_rest:
  "list_all P xs \<Longrightarrow> ys = [] \<or> \<not> P (hd ys)
     \<Longrightarrow> takeWhile P (xs @ ys) = xs \<and> dropWhile P (xs @ ys) = ys"
proof (induction xs)
  case Nil
  then show ?case by (cases ys) auto
next
  case (Cons a xs)
  then show ?case by simp
qed

lemma at_end_dropWhile:
  "at_end (dropWhile uppercase_letter t) \<Longrightarrow>
     t = takeWhile uppercase_letter t \<or> t = takeWhile uppercase_letter t @ [10]"
proof -
  assume "at_end (dropWhile uppercase_letter t)"
  then have "dropWhile uppercase_letter t = [] \<or> dropWhile uppercase_letter t = [10]"
    by (simp add: at_end_def)
  then show ?thesis
    using takeWhile_dropWhile_id [of uppercase_letter t] by (metis append_Nil2)
qed

lemma re_match_sound:
  assumes "re_match U pattern s = Some m"
  shows "\<exists>r n x. m = [r, n, x] \<and> pattern_language U r n x \<and> (s = r @ n @ x \<or> s = r @ n @ x @ [10])
           \<and> r = takeWhile uppercase_letter s
           \<and> n = takeWhile (is_decimal U) (dropWhile uppercase_letter s)
           \<and> x = takeWhile uppercase_letter (dropWhile (is_decimal U) (dropWhile uppercase_letter s))"
proof -
  let ?r = "takeWhile uppercase_letter s"
  let ?s1 = "dropWhile uppercase_letter s"
  let ?n = "takeWhile (is_decimal U) ?s1"
  let ?s2 = "dropWhile (is_decimal U) ?s1"
  let ?x = "takeWhile uppercase_letter ?s2"
  let ?s3 = "dropWhile uppercase_letter ?s2"
  from assms have
    m: "m = [?r, ?n, ?x]" and
    len: "1 \<le> length ?r" "length ?r \<le> 2" "1 \<le> length ?n" "length ?n \<le> 4"
         "1 \<le> length ?x" "length ?x \<le> 3" and
    fin: "at_end ?s3"
    by (auto simp: match_pattern_run_match run_match_def end_of_pattern_def
             split: if_splits option.splits)
  have s: "s = ?r @ ?n @ ?s2"
    by simp
  from fin have "?s2 = ?x \<or> ?s2 = ?x @ [10]"
    by (rule at_end_dropWhile)
  with s have split: "s = ?r @ ?n @ ?x \<or> s = ?r @ ?n @ ?x @ [10]"
    by metis
  have "pattern_language U ?r ?n ?x"
    using len by (simp add: pattern_language_def list_all_takeWhile)
  with m split show ?thesis by blast
qed

lemma re_match_complete:
  assumes g: "pattern_language U r n x" and s: "s = r @ n @ x \<or> s = r @ n @ x @ [10]"
  shows "re_match U pattern s = Some [r, n, x]"
proof -
  obtain e where e: "s = r @ n @ x @ e" "e = [] \<or> e = [10]"
    using s by auto
  from g have ne: "n \<noteq> []" "x \<noteq> []"
    by (auto simp: pattern_language_def)
  have hn: "\<not> uppercase_letter (hd n)"
    using g ne letter_not_decimal [of "hd n" U]
    by (cases n) (auto simp: pattern_language_def)
  have hx: "\<not> is_decimal U (hd x)"
    using g ne letter_not_decimal [of "hd x" U]
    by (cases x) (auto simp: pattern_language_def)
  have he: "e = [] \<or> \<not> uppercase_letter (hd e)"
    using e(2) by (auto simp: uppercase_letter_def)
  have r: "takeWhile uppercase_letter s = r \<and> dropWhile uppercase_letter s = n @ x @ e"
    unfolding e(1) using g ne hn
    by (intro run_then_rest) (auto simp: pattern_language_def)
  have n: "takeWhile (is_decimal U) (n @ x @ e) = n \<and> dropWhile (is_decimal U) (n @ x @ e) = x @ e"
    using g ne hx by (intro run_then_rest) (auto simp: pattern_language_def)
  have x: "takeWhile uppercase_letter (x @ e) = x \<and> dropWhile uppercase_letter (x @ e) = e"
    using g he by (intro run_then_rest) (auto simp: pattern_language_def)
  have "at_end e"
    using e(2) by (auto simp: at_end_def)
  then show ?thesis
    using g r n x
    by (simp add: match_pattern_run_match run_match_def end_of_pattern_def pattern_language_def)
qed

lemma re_match_cases:
  "re_match U pattern s = None \<or> (\<exists>r n x. re_match U pattern s = Some [r, n, x] \<and> pattern_language U r n x)"
proof (cases "re_match U pattern s")
  case None
  then show ?thesis by simp
next
  case (Some m)
  then show ?thesis using re_match_sound [of U s m] by auto
qed

lemma grammar_in_language: "plate_grammar r n x \<Longrightarrow> pattern_language U r n x"
  by (auto simp: plate_grammar_def pattern_language_def ascii_digit_def is_decimal_def
        list_all_iff)

lemma language_in_grammar:
  "pattern_language U r n x \<Longrightarrow> \<forall>c\<in>set n. is_decimal U c \<longrightarrow> ascii_digit c
     \<Longrightarrow> plate_grammar r n x"
  by (auto simp: plate_grammar_def pattern_language_def list_all_iff)

lemma newline_is_space: "is_space U 10"
  by (simp add: is_space_def)

lemma no_space_no_newline:
  "\<forall>c\<in>set s. \<not> is_space U c \<Longrightarrow> s \<noteq> t @ [10]"
  using newline_is_space [of U] by auto

lemma extract_matched:
  "re_match U pattern (clean_text U text) = Some [r, n, x] \<Longrightarrow>
     extract_indonesian_plate_format U text = Inr (Some (format_plate r n x), Some r)"
  by (simp add: extract_indonesian_plate_format_def group_def)

lemma extract_unmatched:
  "re_match U pattern (clean_text U text) = None \<Longrightarrow>
     extract_indonesian_plate_format U text = Inr (None, None)"
  by (simp add: extract_indonesian_plate_format_def)

section \<open>The region lookup and the loop\<close>

lemma get_region_info_cases:
  "get_region_info code =
     (case map_of cityCode_dict code of
        None \<Rightarrow> Inr (str ''Region not found in database'')
      | Some (Single name) \<Rightarrow> Inr name
      | Some (Multiple names) \<Rightarrow> Inr (join (str '', '') names))"
  by (simp add: get_region_info_def contains_def getitem_def
           split: option.splits region_value.splits)

lemma get_region_info_total: "\<exists>info. get_region_info code = Inr info"
  by (simp add: get_region_info_cases split: option.splits region_value.splits)

lemma cityCode_dict_keys: "distinct (map fst cityCode_dict)"
  by (simp add: cityCode_dict_def)

lemma extract_parses:
  "parses U raw \<Longrightarrow>
     \<exists>plate code. extract_indonesian_plate_format U raw = Inr (Some plate, Some code)
        \<and> plate \<noteq> [] \<and> code \<noteq> []"
proof -
  assume "parses U raw"
  then obtain m where m: "re_match U pattern (clean_text U raw) = Some m"
    by (auto simp: parses_def)
  then obtain r n x where mm: "m = [r, n, x]" and g: "pattern_language U r n x"
    using re_match_sound [of U "clean_text U raw" m] by blast
  have "extract_indonesian_plate_format U raw = Inr (Some (format_plate r n x), Some r)"
    using m mm by (simp add: extract_matched)
  moreover have "format_plate r n x \<noteq> [] \<and> r \<noteq> []"
    using g by (auto simp: pattern_language_def format_plate_def)
  ultimately show ?thesis by blast
qed

lemma process_prediction_no_ocr: "ocr p = None \<Longrightarrow> process_prediction U p = Inl AttributeError"
  by (simp add: process_prediction_def prediction_ocr_text_def)

lemma process_prediction_unmatched:
  "ocr p = Some r \<Longrightarrow> \<not> parses U (ocr_text r) \<Longrightarrow> process_prediction U p = Inr None"
  by (simp add: process_prediction_def prediction_ocr_text_def parses_def extract_unmatched)

lemma process_prediction_matched:
  assumes o: "ocr p = Some r" and m: "parses U (ocr_text r)"
  shows "process_prediction U p = Inl AttributeError"
proof -
  obtain plate code where e: "extract_indonesian_plate_format U (ocr_text r)
      = Inr (Some plate, Some code)" and ne: "plate \<noteq> []" "code \<noteq> []"
    using extract_parses [OF m] by blast
  obtain info where info: "get_region_info code = Inr info"
    using get_region_info_total by blast
  show ?thesis
    using o e ne info
    by (simp add: process_prediction_def prediction_ocr_text_def prediction_ocr_confidence_def
          prediction_bbox_xyxy_def)
qed

lemma process_prediction_cases:
  "process_prediction U p = Inl AttributeError \<or> process_prediction U p = Inr None"
proof (cases "ocr p")
  case None
  then show ?thesis by (simp add: process_prediction_no_ocr)
next
  case (Some r)
  then show ?thesis
    using process_prediction_unmatched [of p r U] process_prediction_matched [of p r U]
    by blast
qed

lemma for_prediction_cases:
  "for_prediction U ps detected = Inl AttributeError \<or> for_prediction U ps detected = Inr detected"
proof (induction ps)
  case Nil
  show ?case by simp
next
  case (Cons p ps)
  from process_prediction_cases [of U p] show ?case
  proof
    assume "process_prediction U p = Inl AttributeError"
    then show ?thesis by simp
  next
    assume "process_prediction U p = Inr None"
    then show ?thesis using Cons.IH by simp
  qed
qed

section \<open>Properties\<close>

lemma re_match_iff_language:
  assumes ws: "\<forall>c\<in>set s. \<not> is_space U c"
  shows "re_match U pattern s = Some [r, n, x] \<longleftrightarrow> s = r @ n @ x \<and> pattern_language U r n x"
proof
  assume m: "re_match U pattern s = Some [r, n, x]"
  have nl: "s \<noteq> (r @ n @ x) @ [10]"
    using ws by (rule no_space_no_newline)
  from re_match_sound [OF m] have g: "pattern_language U r n x"
    and split: "s = r @ n @ x \<or> s = r @ n @ x @ [10]"
    by blast+
  from split nl have "s = r @ n @ x"
    by simp
  with g show "s = r @ n @ x \<and> pattern_language U r n x"
    by simp
next
  assume "s = r @ n @ x \<and> pattern_language U r n x"
  then show "re_match U pattern s = Some [r, n, x]"
    using re_match_complete [of U r n x s] by simp
qed

text \<open>
  C1, as stated, fails: the number group of the pattern is \<open>\d\<close>, which accepts every
  decimal digit of Unicode. The text \<open>D\<close>, \<open>U+0661\<close>, \<open>U+0662\<close>, \<open>AB\<close> has no whitespace and
  is its own upper-casing and its own cleaned text, and it parses, with the two
  Arabic-Indic digits as the number; but it has no split into one or two letters, one to
  four digits \<open>0\<close> to \<open>9\<close> and one to three letters.
\<close>

theorem parse_accepts_other_digits:
  "list_all (\<lambda>c. \<not> is_space sample_db c) (str ''D'' @ [1633, 1634] @ str ''AB'')
   \<and> upper sample_db (str ''D'' @ [1633, 1634] @ str ''AB'') = str ''D'' @ [1633, 1634] @ str ''AB''
   \<and> clean_text sample_db (str ''D'' @ [1633, 1634] @ str ''AB'')
       = str ''D'' @ [1633, 1634] @ str ''AB''
   \<and> re_match sample_db pattern (str ''D'' @ [1633, 1634] @ str ''AB'')
       = Some [str ''D'', [1633, 1634], str ''AB'']
   \<and> \<not> (\<exists>r n x. str ''D'' @ [1633, 1634] @ str ''AB'' = r @ n @ x \<and> plate_grammar r n x)"
proof -
  let ?s = "str ''D'' @ [1633, 1634] @ str ''AB''"
  have ws: "list_all (\<lambda>c. \<not> is_space sample_db c) ?s"
    by (simp add: is_space_def sample_db_def)
  have up: "upper sample_db ?s = ?s"
    by (simp add: upper_def upper_char_def sample_db_def)
  have cl: "clean_text sample_db ?s = ?s"
    by (simp add: clean_text_filter upper_char_def is_space_def sample_db_def)
  have m: "re_match sample_db pattern ?s = Some [str ''D'', [1633, 1634], str ''AB'']"
    by (simp add: match_pattern_run_match run_match_def uppercase_letter_def is_decimal_def
          end_of_pattern_def at_end_def sample_db_def)
  have no: "\<not> (\<exists>r n x. ?s = r @ n @ x \<and> plate_grammar r n x)"
  proof
    assume "\<exists>r n x. ?s = r @ n @ x \<and> plate_grammar r n x"
    then obtain r n x where split: "?s = r @ n @ x" and g: "plate_grammar r n x"
      by blast
    from g have "pattern_language sample_db r n x"
      by (rule grammar_in_language)
    with split have "re_match sample_db pattern ?s = Some [r, n, x]"
      using re_match_complete [of sample_db r n x ?s] by simp
    with m have "n = [1633, 1634]"
      by simp
    with g show False
      by (simp add: plate_grammar_def ascii_digit_def)
  qed
  from ws up cl m no show ?thesis
    by blast
qed

text \<open>
  C1, amended. For a text without whitespace, as every cleaned text is, in which the only
  decimal digits are \<open>0\<close> to \<open>9\<close>, as in every ASCII text, \<open>re.match\<close> on the plate pattern
  returns the three groups \<open>r\<close>, \<open>n\<close>, \<open>x\<close> exactly when the text is \<open>r\<close> followed by \<open>n\<close>
  followed by \<open>x\<close> with one or two letters \<open>A\<close> to \<open>Z\<close>, one to four digits \<open>0\<close> to \<open>9\<close> and
  one to three letters \<open>A\<close> to \<open>Z\<close>, and nothing before or after; it returns \<open>None\<close> exactly
  when the text has no such split. \<open>D12345ABC\<close> and \<open>D1ABCDEF\<close> give \<open>None\<close>.
\<close>

theorem parse_iff_grammar:
  assumes ws: "\<forall>c\<in>set s. \<not> is_space U c"
    and dg: "\<forall>c\<in>set s. is_decimal U c \<longrightarrow> ascii_digit c"
  shows "(\<forall>r n x. re_match U pattern s = Some [r, n, x] \<longleftrightarrow> s = r @ n @ x \<and> plate_grammar r n x)
       \<and> (re_match U pattern s = None \<longleftrightarrow> \<not> (\<exists>r n x. s = r @ n @ x \<and> plate_grammar r n x))
       \<and> re_match U pattern (str ''D12345ABC'') = None
       \<and> re_match U pattern (str ''D1ABCDEF'') = None"
proof -
  have fwd: "s = r @ n @ x \<and> plate_grammar r n x"
    if m: "re_match U pattern s = Some [r, n, x]" for r n x
  proof -
    from m have l: "s = r @ n @ x \<and> pattern_language U r n x"
      using re_match_iff_language [OF ws] by simp
    then have "\<forall>c\<in>set n. is_decimal U c \<longrightarrow> ascii_digit c"
      using dg by simp
    with l show ?thesis
      using language_in_grammar [of U r n x] by simp
  qed
  have bwd: "re_match U pattern s = Some [r, n, x]"
    if "s = r @ n @ x \<and> plate_grammar r n x" for r n x
    using that re_match_iff_language [OF ws, of r n x] grammar_in_language [of r n x U] by simp
  have none: "re_match U pattern s = None \<longleftrightarrow> \<not> (\<exists>r n x. s = r @ n @ x \<and> plate_grammar r n x)"
  proof
    assume "re_match U pattern s = None"
    then show "\<not> (\<exists>r n x. s = r @ n @ x \<and> plate_grammar r n x)"
      using bwd by fastforce
  next
    assume no: "\<not> (\<exists>r n x. s = r @ n @ x \<and> plate_grammar r n x)"
    show "re_match U pattern s = None"
      using re_match_cases [of U s] fwd no by blast
  qed
  have ex1: "re_match U pattern (str ''D12345ABC'') = None"
    by (simp add: match_pattern_run_match run_match_def uppercase_letter_def is_decimal_def)
  have ex2: "re_match U pattern (str ''D1ABCDEF'') = None"
    by (simp add: match_pattern_run_match run_match_def uppercase_letter_def is_decimal_def)
  from fwd bwd none ex1 ex2 show ?thesis by blast
qed

theorem parse_iff_grammar_witness:
  "list_all (\<lambda>c. \<not> is_space sample_db c) (str ''D1234ABC'')
   \<and> list_all (\<lambda>c. c < 128) (str ''D1234ABC'')
   \<and> re_match sample_db pattern (str ''D1234ABC'') = Some [str ''D'', str ''1234'', str ''ABC'']
   \<and> plate_grammar (str ''D'') (str ''1234'') (str ''ABC'')
   \<and> re_match sample_db pattern (str ''D1234'') = None"
proof -
  have ws: "\<forall>c\<in>set (str ''D1234ABC''). \<not> is_space sample_db c"
    by (simp add: is_space_def)
  have dg: "\<forall>c\<in>set (str ''D1234ABC''). is_decimal sample_db c \<longrightarrow> ascii_digit c"
    by (simp add: is_decimal_def ascii_digit_def)
  have g: "str ''D1234ABC'' = str ''D'' @ str ''1234'' @ str ''ABC''
           \<and> plate_grammar (str ''D'') (str ''1234'') (str ''ABC'')"
    by (simp add: plate_grammar_def uppercase_letter_def ascii_digit_def)
  have m: "re_match sample_db pattern (str ''D1234ABC'') = Some [str ''D'', str ''1234'', str ''ABC'']"
    using g parse_iff_grammar [OF ws dg] by blast
  have n: "re_match sample_db pattern (str ''D1234'') = None"
    by (simp add: match_pattern_run_match run_match_def uppercase_letter_def is_decimal_def)
  from g m n show ?thesis
    by (simp add: is_space_def)
qed

text \<open>
  C2. On the objects that the library returns, the loop body does not add the record that
  the property describes. For the text \<open>d1234abc\<close> with confidence 0.92 the text is cleaned
  and matched and the region is looked up, and then the read of \<open>prediction.bbox_xyxy\<close>
  raises \<open>AttributeError\<close>, whatever the detection holds. A text that does not parse, such
  as \<open>###\<close>, adds nothing, as the property says. So for no prediction at all is a record
  added.
\<close>

theorem process_prediction_raises:
  "process_prediction U
     \<lparr>detection = d, ocr = Some \<lparr>ocr_text = str ''d1234abc'', ocr_confidence = (92 / 100 :: real)\<rparr>\<rparr>
     = Inl AttributeError
   \<and> process_prediction U
     \<lparr>detection = d, ocr = Some \<lparr>ocr_text = str ''###'', ocr_confidence = (1 / 2 :: real)\<rparr>\<rparr>
     = Inr None
   \<and> (process_prediction U p = Inl AttributeError \<or> process_prediction U p = Inr None)"
proof -
  have 1: "parses U (str ''d1234abc'')"
    by (simp add: parses_def clean_text_filter upper_char_def is_space_def
          match_pattern_run_match run_match_def uppercase_letter_def is_decimal_def
          end_of_pattern_def at_end_def)
  have 2: "\<not> parses U (str ''###'')"
    by (simp add: parses_def clean_text_filter upper_char_def is_space_def
          match_pattern_run_match run_match_def uppercase_letter_def)
  show ?thesis
    using 1 2 process_prediction_cases [of U p]
    by (simp add: process_prediction_matched process_prediction_unmatched)
qed

theorem process_prediction_raises_witness:
  "process_prediction sample_db
     \<lparr>detection = [10, 20, 100, 50 :: int],
      ocr = Some \<lparr>ocr_text = str ''b 12 cd'', ocr_confidence = (1 / 4 :: real)\<rparr>\<rparr>
   = Inl AttributeError"
proof -
  let ?p = "\<lparr>detection = [10, 20, 100, 50 :: int],
      ocr = Some \<lparr>ocr_text = str ''b 12 cd'', ocr_confidence = (1 / 4 :: real)\<rparr>\<rparr>"
  have "parses sample_db (str ''b 12 cd'')"
    by (simp add: parses_def clean_text_filter upper_char_def is_space_def
          match_pattern_run_match run_match_def uppercase_letter_def is_decimal_def
          end_of_pattern_def at_end_def)
  then have "process_prediction sample_db ?p \<noteq> Inr None"
    by (simp add: process_prediction_matched)
  then show ?thesis
    using process_prediction_raises [of sample_db "[]" ?p] by blast
qed

text \<open>
  C3, as stated, fails: cleaning keeps every character that is not whitespace, so \<open>###\<close>
  comes out as \<open>###\<close>, which is not a word over \<open>[A-Z0-9]\<close>.
\<close>

theorem normalize_not_only_plate_chars:
  "clean_text sample_db (str ''###'') = str ''###''
   \<and> \<not> list_all plate_char (clean_text sample_db (str ''###''))"
  by (simp add: clean_text_filter upper_char_def is_space_def plate_char_def)

text \<open>
  C3, amended. The cleaned text of any input has no whitespace character. It is a word
  over \<open>[A-Z0-9]\<close> when the input has only whitespace and ASCII letters and digits (the
  input being all ASCII, or whitespace having no case mapping, as in the Unicode database).
\<close>

theorem normalize_output_chars:
  "(\<forall>c\<in>set (clean_text U text). \<not> is_space U c)
   \<and> (((\<forall>c\<in>set text. c < 128) \<or> spaces_uncased U)
        \<and> (\<forall>c\<in>set text. is_space U c \<or> ascii_letter_or_digit c)
        \<longrightarrow> list_all plate_char (clean_text U text))"
proof -
  have "list_all plate_char (clean_text U text)"
    if "(\<forall>c\<in>set text. c < 128) \<or> spaces_uncased U"
      and "\<forall>c\<in>set text. is_space U c \<or> ascii_letter_or_digit c"
  proof (rule clean_text_plate_chars)
    show "\<forall>c\<in>set text. (is_space U c \<and> upper_char U c = [c]) \<or> ascii_letter_or_digit c"
      using that ascii_or_spaces_uncased [of "text" U] by blast
  qed
  then show ?thesis
    using clean_text_no_space [of U "text"] by blast
qed

theorem normalize_output_chars_witness:
  "list_all (\<lambda>c. c < 128) (str '' d 1234 abc '')
   \<and> list_all (\<lambda>c. is_space sample_db c \<or> ascii_letter_or_digit c) (str '' d 1234 abc '')
   \<and> clean_text sample_db (str '' d 1234 abc '') = str ''D1234ABC''
   \<and> list_all plate_char (clean_text sample_db (str '' d 1234 abc ''))"
proof -
  have a: "\<forall>c\<in>set (str '' d 1234 abc ''). c < 128"
    by simp
  have h: "\<forall>c\<in>set (str '' d 1234 abc ''). is_space sample_db c \<or> ascii_letter_or_digit c"
    by (simp add: is_space_def ascii_letter_or_digit_def)
  have v: "clean_text sample_db (str '' d 1234 abc '') = str ''D1234ABC''"
    by (simp add: clean_text_filter upper_char_def is_space_def)
  have "list_all plate_char (clean_text sample_db (str '' d 1234 abc ''))"
    using a h normalize_output_chars [of sample_db "str '' d 1234 abc ''"] by blast
  with v show ?thesis
    by (simp add: is_space_def ascii_letter_or_digit_def)
qed

text \<open>
  C4. A code that is a key of \<open>cityCode_dict\<close> with a single name gives that name; a key
  with a list of names gives the names joined by a comma and a space, in the order of the
  list; any other code gives the fixed string \<open>Region not found in database\<close>. So \<open>DK\<close>
  gives \<open>Bali\<close>, \<open>B\<close> gives \<open>DKI Jakarta, Bekasi, Depok, Tangerang\<close>, and \<open>ZZ\<close> the fixed
  string.
\<close>

theorem get_region_info_lookup:
  "(\<forall>name. map_of cityCode_dict code = Some (Single name) \<longrightarrow> get_region_info code = Inr name)
   \<and> (\<forall>names. map_of cityCode_dict code = Some (Multiple names)
         \<longrightarrow> get_region_info code = Inr (join (str '', '') names))
   \<and> (map_of cityCode_dict code = None
         \<longrightarrow> get_region_info code = Inr (str ''Region not found in database''))
   \<and> get_region_info (str ''DK'') = Inr (str ''Bali'')
   \<and> get_region_info (str ''B'') = Inr (str ''DKI Jakarta, Bekasi, Depok, Tangerang'')
   \<and> get_region_info (str ''ZZ'') = Inr (str ''Region not found in database'')"
proof -
  have dk: "get_region_info (str ''DK'') = Inr (str ''Bali'')"
    by (simp add: get_region_info_cases cityCode_dict_def)
  have b: "get_region_info (str ''B'') = Inr (str ''DKI Jakarta, Bekasi, Depok, Tangerang'')"
    by (simp add: get_region_info_cases cityCode_dict_def)
  have zz: "get_region_info (str ''ZZ'') = Inr (str ''Region not found in database'')"
    by (simp add: get_region_info_cases cityCode_dict_def)
  show ?thesis
    using dk b zz by (simp add: get_region_info_cases)
qed

theorem get_region_info_lookup_witness:
  "map_of cityCode_dict (str ''D'')
     = Some (Multiple [str ''Bandung'', str ''Bandung Barat'', str ''Cimahi''])
   \<and> get_region_info (str ''D'') = Inr (str ''Bandung, Bandung Barat, Cimahi'')
   \<and> map_of cityCode_dict (str ''H'') = Some (Single (str ''Semarang''))
   \<and> get_region_info (str ''H'') = Inr (str ''Semarang'')
   \<and> map_of cityCode_dict (str ''X'') = None
   \<and> get_region_info (str ''X'') = Inr (str ''Region not found in database'')"
proof -
  have d: "map_of cityCode_dict (str ''D'')
             = Some (Multiple [str ''Bandung'', str ''Bandung Barat'', str ''Cimahi''])"
    by (simp add: cityCode_dict_def)
  have h: "map_of cityCode_dict (str ''H'') = Some (Single (str ''Semarang''))"
    by (simp add: cityCode_dict_def)
  have x: "map_of cityCode_dict (str ''X'') = None"
    by (simp add: cityCode_dict_def)
  show ?thesis
    using d h x get_region_info_lookup [of "str ''D''"] get_region_info_lookup [of "str ''H''"]
      get_region_info_lookup [of "str ''X''"]
    by simp
qed

text \<open>
  C5. Cleaning, matching, extracting and looking a region up return a value for every
  input: the \<open>IndexError\<close> of \<open>match.group\<close> and the \<open>KeyError\<close> of the dictionary subscript
  are never reached. Processing the predictions does raise: \<open>AttributeError\<close> for a
  prediction with no OCR result, at the read of \<open>prediction.ocr.text\<close>, and for a
  prediction whose text parses, at the read of \<open>prediction.bbox_xyxy\<close>.
\<close>

theorem process_alpr_results_raises:
  "(\<exists>v. extract_indonesian_plate_format U raw = Inr v)
   \<and> (re_match U pattern s = None \<or> (\<exists>r n x. re_match U pattern s = Some [r, n, x]))
   \<and> (\<exists>info. get_region_info code = Inr info)
   \<and> process_alpr_results U [\<lparr>detection = d, ocr = None\<rparr>] = Inl AttributeError
   \<and> process_alpr_results U
        [\<lparr>detection = d, ocr = Some \<lparr>ocr_text = str ''d1234abc'', ocr_confidence = c\<rparr>\<rparr>]
       = Inl AttributeError"
proof -
  have 1: "\<exists>v. extract_indonesian_plate_format U raw = Inr v"
  proof (cases "re_match U pattern (clean_text U raw)")
    case None
    then show ?thesis by (simp add: extract_unmatched)
  next
    case (Some m)
    then obtain r n x where "m = [r, n, x]"
      using re_match_sound [of U "clean_text U raw" m] by blast
    with Some show ?thesis by (simp add: extract_matched)
  qed
  have 2: "re_match U pattern s = None \<or> (\<exists>r n x. re_match U pattern s = Some [r, n, x])"
    using re_match_cases [of U s] by blast
  have p: "parses U (str ''d1234abc'')"
    by (simp add: parses_def clean_text_filter upper_char_def is_space_def
          match_pattern_run_match run_match_def uppercase_letter_def is_decimal_def
          end_of_pattern_def at_end_def)
  have 4: "process_alpr_results U [\<lparr>detection = d, ocr = None\<rparr>] = Inl AttributeError"
    by (simp add: process_alpr_results_def process_prediction_no_ocr)
  have 5: "process_alpr_results U
        [\<lparr>detection = d, ocr = Some \<lparr>ocr_text = str ''d1234abc'', ocr_confidence = c\<rparr>\<rparr>]
       = Inl AttributeError"
    using p by (simp add: process_alpr_results_def process_prediction_matched)
  from 1 2 4 5 show ?thesis
    using get_region_info_total [of code] by blast
qed

theorem process_alpr_results_raises_witness:
  "extract_indonesian_plate_format sample_db (str ''!?'') = Inr (None, None)
   \<and> get_region_info (str ''!?'') = Inr (str ''Region not found in database'')
   \<and> process_alpr_results sample_db
        [\<lparr>detection = [10, 20, 100, 50 :: int],
          ocr = Some \<lparr>ocr_text = str ''d1234abc'', ocr_confidence = (92 / 100 :: real)\<rparr>\<rparr>]
       = Inl AttributeError"
proof -
  have m: "re_match sample_db pattern (clean_text sample_db (str ''!?'')) = None"
    by (simp add: clean_text_filter upper_char_def is_space_def match_pattern_run_match
          run_match_def uppercase_letter_def)
  have e: "extract_indonesian_plate_format sample_db (str ''!?'') = Inr (None, None)"
    using m by (rule extract_unmatched)
  have i: "get_region_info (str ''!?'') = Inr (str ''Region not found in database'')"
    by (simp add: get_region_info_cases cityCode_dict_def)
  have "process_alpr_results sample_db
        [\<lparr>detection = [10, 20, 100, 50 :: int],
          ocr = Some \<lparr>ocr_text = str ''d1234abc'', ocr_confidence = (92 / 100 :: real)\<rparr>\<rparr>]
       = Inl AttributeError"
    using process_alpr_results_raises
      [of sample_db "str ''!?''" "[]" "str ''!?''" "[10, 20, 100, 50 :: int]" "92 / 100 :: real"]
    by blast
  with e i show ?thesis
    by blast
qed

text \<open>
  C6. On the objects that the library returns, the result is not the list of the records
  of the predictions whose text parses: as soon as one text parses, the function raises
  \<open>AttributeError\<close> and returns no list. Of the three predictions with the texts \<open>h 1 a\<close>,
  \<open>###\<close> and \<open>dk 22 bb\<close>, two parse, and the call raises. A list is returned only when no
  text parses, and it is empty.
\<close>

theorem process_alpr_results_no_records:
  "process_alpr_results U
     [\<lparr>detection = d1, ocr = Some \<lparr>ocr_text = str ''h 1 a'', ocr_confidence = c1\<rparr>\<rparr>,
      \<lparr>detection = d2, ocr = Some \<lparr>ocr_text = str ''###'', ocr_confidence = c2\<rparr>\<rparr>,
      \<lparr>detection = d3, ocr = Some \<lparr>ocr_text = str ''dk 22 bb'', ocr_confidence = c3\<rparr>\<rparr>]
     = Inl AttributeError
   \<and> (process_alpr_results U ps = Inl AttributeError \<or> process_alpr_results U ps = Inr [])"
proof -
  have p: "parses U (str ''h 1 a'')"
    by (simp add: parses_def clean_text_filter upper_char_def is_space_def
          match_pattern_run_match run_match_def uppercase_letter_def is_decimal_def
          end_of_pattern_def at_end_def)
  have "process_alpr_results U
     [\<lparr>detection = d1, ocr = Some \<lparr>ocr_text = str ''h 1 a'', ocr_confidence = c1\<rparr>\<rparr>,
      \<lparr>detection = d2, ocr = Some \<lparr>ocr_text = str ''###'', ocr_confidence = c2\<rparr>\<rparr>,
      \<lparr>detection = d3, ocr = Some \<lparr>ocr_text = str ''dk 22 bb'', ocr_confidence = c3\<rparr>\<rparr>]
     = Inl AttributeError"
    using p by (simp add: process_alpr_results_def process_prediction_matched)
  then show ?thesis
    using for_prediction_cases [of U ps "[]"] by (simp add: process_alpr_results_def)
qed

theorem process_alpr_results_no_records_witness:
  "process_alpr_results sample_db
     [\<lparr>detection = [0, 0, 1, 1 :: int],
       ocr = Some \<lparr>ocr_text = str ''###'', ocr_confidence = (1 / 2 :: real)\<rparr>\<rparr>,
      \<lparr>detection = [10, 20, 100, 50],
       ocr = Some \<lparr>ocr_text = str ''d1234abc'', ocr_confidence = 92 / 100\<rparr>\<rparr>]
   = Inl AttributeError"
proof -
  let ?ps = "[\<lparr>detection = [0, 0, 1, 1 :: int],
       ocr = Some \<lparr>ocr_text = str ''###'', ocr_confidence = (1 / 2 :: real)\<rparr>\<rparr>,
      \<lparr>detection = [10, 20, 100, 50],
       ocr = Some \<lparr>ocr_text = str ''d1234abc'', ocr_confidence = 92 / 100\<rparr>\<rparr>]"
  have 1: "\<not> parses sample_db (str ''###'')"
    by (simp add: parses_def clean_text_filter upper_char_def is_space_def
          match_pattern_run_match run_match_def uppercase_letter_def)
  have 2: "parses sample_db (str ''d1234abc'')"
    by (simp add: parses_def clean_text_filter upper_char_def is_space_def
          match_pattern_run_match run_match_def uppercase_letter_def is_decimal_def
          end_of_pattern_def at_end_def)
  have "process_alpr_results sample_db ?ps \<noteq> Inr []"
    using 1 2
    by (simp add: process_alpr_results_def process_prediction_matched
          process_prediction_unmatched)
  then show ?thesis
    using process_alpr_results_no_records [of sample_db "[]" "0" "[]" "0" "[]" "0" ?ps]
    by blast
qed

text \<open>
  C7. On a text of whitespace and ASCII letters and digits, cleaning twice is cleaning
  once (the text being all ASCII, or whitespace having no case mapping, as in the Unicode
  database).
\<close>

theorem normalize_idempotent:
  assumes U: "(\<forall>c\<in>set s. c < 128) \<or> spaces_uncased U"
    and s: "\<forall>c\<in>set s. is_space U c \<or> ascii_letter_or_digit c"
  shows "clean_text U (clean_text U s) = clean_text U s"
proof -
  have "\<forall>c\<in>set s. (is_space U c \<and> upper_char U c = [c]) \<or> ascii_letter_or_digit c"
    using s ascii_or_spaces_uncased [OF U] by blast
  then have "list_all plate_char (clean_text U s)"
    by (rule clean_text_plate_chars)
  then have "\<forall>c\<in>set (clean_text U s). upper_char U c = [c] \<and> \<not> is_space U c"
    using plate_char_fixed [of _ U] by (auto simp: list_all_iff)
  then show ?thesis
    by (rule clean_text_fixed)
qed

theorem normalize_idempotent_witness:
  "spaces_uncased sample_db
   \<and> list_all (\<lambda>c. is_space sample_db c \<or> ascii_letter_or_digit c)
         (str '' d 12'' @ [160] @ str ''Ab'')
   \<and> clean_text sample_db (str '' d 12'' @ [160] @ str ''Ab'') = str ''D12AB''
   \<and> clean_text sample_db (clean_text sample_db (str '' d 12'' @ [160] @ str ''Ab''))
       = str ''D12AB''"
proof -
  let ?s = "str '' d 12'' @ [160] @ str ''Ab''"
  have h: "\<forall>c\<in>set ?s. is_space sample_db c \<or> ascii_letter_or_digit c"
    by (simp add: is_space_def ascii_letter_or_digit_def sample_db_def)
  have v: "clean_text sample_db ?s = str ''D12AB''"
    by (simp add: clean_text_filter upper_char_def is_space_def sample_db_def)
  have l: "list_all (\<lambda>c. is_space sample_db c \<or> ascii_letter_or_digit c) ?s"
    using h by (simp only: list_all_iff)
  have "clean_text sample_db (clean_text sample_db ?s) = str ''D12AB''"
    using v normalize_idempotent [OF disjI2 [OF sample_db_spaces] h] by simp
  with v l sample_db_spaces show ?thesis
    by blast
qed

text \<open>
  C8. When the match succeeds, each group is the whole run of its class: the region code
  is the maximal leading run of letters \<open>A\<close> to \<open>Z\<close> of the text (no longer prefix of the
  text is all letters, and the run has at most two), the number is the run of digits after
  it and the suffix the run of letters after that. It is what the greedy matcher returns,
  and no other split of the text is in the language of the pattern.
\<close>

theorem region_code_maximal_run:
  assumes "re_match U pattern s = Some m"
  shows "m = [takeWhile uppercase_letter s,
              takeWhile (is_decimal U) (dropWhile uppercase_letter s),
              takeWhile uppercase_letter (dropWhile (is_decimal U) (dropWhile uppercase_letter s))]
       \<and> group m 1 = Inr (takeWhile uppercase_letter s)
       \<and> length (takeWhile uppercase_letter s) \<le> 2
       \<and> (\<forall>j. j \<le> length s \<and> list_all uppercase_letter (take j s)
               \<longrightarrow> j \<le> length (takeWhile uppercase_letter s))
       \<and> (\<forall>r n x. pattern_language U r n x \<and> s = r @ n @ x \<longrightarrow> m = [r, n, x])"
proof -
  from re_match_sound [OF assms] obtain r n x where
    m: "m = [r, n, x]" and g: "pattern_language U r n x"
    and r: "r = takeWhile uppercase_letter s"
    and n: "n = takeWhile (is_decimal U) (dropWhile uppercase_letter s)"
    and x: "x = takeWhile uppercase_letter (dropWhile (is_decimal U) (dropWhile uppercase_letter s))"
    by blast
  have 1: "m = [takeWhile uppercase_letter s,
              takeWhile (is_decimal U) (dropWhile uppercase_letter s),
              takeWhile uppercase_letter (dropWhile (is_decimal U) (dropWhile uppercase_letter s))]"
    using m r n x by simp
  have 2: "group m 1 = Inr (takeWhile uppercase_letter s)"
    using m r by (simp add: group_def)
  have 3: "length (takeWhile uppercase_letter s) \<le> 2"
    using g r by (simp add: pattern_language_def)
  have 4: "\<forall>j. j \<le> length s \<and> list_all uppercase_letter (take j s)
               \<longrightarrow> j \<le> length (takeWhile uppercase_letter s)"
    using prefix_all_iff [of _ s uppercase_letter] by blast
  have 5: "\<forall>r' n' x'. pattern_language U r' n' x' \<and> s = r' @ n' @ x' \<longrightarrow> m = [r', n', x']"
    using assms re_match_complete [of U _ _ _ s] by fastforce
  from 1 2 3 4 5 show ?thesis by blast
qed

theorem region_code_maximal_run_witness:
  "re_match sample_db pattern (str ''AB12CD'') = Some [str ''AB'', str ''12'', str ''CD'']
   \<and> group [str ''AB'', str ''12'', str ''CD''] 1 = Inr (str ''AB'')
   \<and> takeWhile uppercase_letter (str ''AB12CD'') = str ''AB''"
proof -
  have m: "re_match sample_db pattern (str ''AB12CD'') = Some [str ''AB'', str ''12'', str ''CD'']"
    by (simp add: match_pattern_run_match run_match_def uppercase_letter_def is_decimal_def
          end_of_pattern_def at_end_def)
  have "group [str ''AB'', str ''12'', str ''CD''] 1 = Inr (takeWhile uppercase_letter (str ''AB12CD''))"
    using region_code_maximal_run [OF m] by blast
  then show ?thesis
    using m by (simp add: uppercase_letter_def)
qed

text \<open>
  C9. \<open>extract_indonesian_plate_format\<close> returns a formatted plate and a region code, both
  strings and both non-empty, or \<open>(None, None)\<close>; never one of the two alone.
\<close>

theorem extract_both_or_neither:
  "(\<exists>plate code. extract_indonesian_plate_format U text = Inr (Some plate, Some code)
        \<and> plate \<noteq> [] \<and> code \<noteq> [])
   \<or> extract_indonesian_plate_format U text = Inr (None, None)"
proof (cases "re_match U pattern (clean_text U text)")
  case None
  then show ?thesis by (simp add: extract_unmatched)
next
  case (Some m)
  then obtain r n x where m: "m = [r, n, x]" and g: "pattern_language U r n x"
    using re_match_sound [of U "clean_text U text" m] by blast
  have "extract_indonesian_plate_format U text = Inr (Some (format_plate r n x), Some r)"
    using Some m by (simp add: extract_matched)
  moreover have "format_plate r n x \<noteq> [] \<and> r \<noteq> []"
    using g by (auto simp: pattern_language_def format_plate_def)
  ultimately show ?thesis by blast
qed

theorem extract_both_or_neither_witness:
  "extract_indonesian_plate_format sample_db (str ''ab 12 c'')
     = Inr (Some (str ''AB 12 C''), Some (str ''AB''))
   \<and> extract_indonesian_plate_format sample_db (str ''12 ab'') = Inr (None, None)"
proof -
  have 1: "extract_indonesian_plate_format sample_db (str ''ab 12 c'')
             = Inr (Some (str ''AB 12 C''), Some (str ''AB''))"
    by (simp add: extract_indonesian_plate_format_def clean_text_filter upper_char_def
          is_space_def match_pattern_run_match run_match_def uppercase_letter_def is_decimal_def
          end_of_pattern_def at_end_def group_def format_plate_def)
  have "extract_indonesian_plate_format sample_db (str ''12 ab'') \<noteq> Inr (Some plate, Some code)"
    for plate code
    by (simp add: extract_indonesian_plate_format_def clean_text_filter upper_char_def
          is_space_def match_pattern_run_match run_match_def uppercase_letter_def)
  then have "extract_indonesian_plate_format sample_db (str ''12 ab'') = Inr (None, None)"
    using extract_both_or_neither [of sample_db "str ''12 ab''"] by blast
  with 1 show ?thesis by simp
qed

text \<open>
  C10. Formatting the groups of a successful match of a text without whitespace and
  cleaning the result gives the text back, and matching it again gives the same groups
  (the text being all ASCII, or decimal digits having no case mapping, as in the Unicode
  database); so extracting from a formatted plate returns that plate and its region code.
\<close>

theorem format_then_parse:
  assumes U: "(\<forall>c\<in>set s. c < 128) \<or> digits_uncased U"
    and ws: "\<forall>c\<in>set s. \<not> is_space U c"
    and m: "re_match U pattern s = Some [r, n, x]"
  shows "clean_text U (format_plate r n x) = s
       \<and> re_match U pattern (clean_text U (format_plate r n x)) = Some [r, n, x]
       \<and> extract_indonesian_plate_format U (format_plate r n x)
           = Inr (Some (format_plate r n x), Some r)"
proof -
  from re_match_sound [OF m] have g: "pattern_language U r n x"
    and split: "s = r @ n @ x \<or> s = r @ n @ x @ [10]"
    by auto
  have s: "s = r @ n @ x"
    using split no_space_no_newline [OF ws, of "r @ n @ x"] by auto
  have n: "\<forall>c\<in>set n. \<not> is_space U c"
    using ws s by simp
  have "\<forall>c\<in>set n. is_decimal U c \<longrightarrow> upper_char U c = [c]"
    using ascii_or_digits_uncased [OF U] s by simp
  then have c: "clean_text U (format_plate r n x) = s"
    using g n s by (simp add: clean_text_format_plate)
  then have p: "re_match U pattern (clean_text U (format_plate r n x)) = Some [r, n, x]"
    using m by simp
  from c p show ?thesis
    by (simp add: extract_matched)
qed

theorem format_then_parse_witness:
  "digits_uncased sample_db
   \<and> list_all (\<lambda>c. \<not> is_space sample_db c) (str ''D'' @ [1633, 1634] @ str ''AB'')
   \<and> re_match sample_db pattern (str ''D'' @ [1633, 1634] @ str ''AB'')
       = Some [str ''D'', [1633, 1634], str ''AB'']
   \<and> clean_text sample_db (format_plate (str ''D'') [1633, 1634] (str ''AB''))
       = str ''D'' @ [1633, 1634] @ str ''AB''
   \<and> re_match sample_db pattern
        (clean_text sample_db (format_plate (str ''D'') [1633, 1634] (str ''AB'')))
       = Some [str ''D'', [1633, 1634], str ''AB'']"
proof -
  let ?s = "str ''D'' @ [1633, 1634] @ str ''AB''"
  have ws: "\<forall>c\<in>set ?s. \<not> is_space sample_db c"
    by (simp add: is_space_def sample_db_def)
  have m: "re_match sample_db pattern ?s = Some [str ''D'', [1633, 1634], str ''AB'']"
    by (simp add: match_pattern_run_match run_match_def uppercase_letter_def is_decimal_def
          end_of_pattern_def at_end_def sample_db_def)
  have "clean_text sample_db (format_plate (str ''D'') [1633, 1634] (str ''AB'')) = ?s
      \<and> re_match sample_db pattern
          (clean_text sample_db (format_plate (str ''D'') [1633, 1634] (str ''AB'')))
         = Some [str ''D'', [1633, 1634], str ''AB'']"
    using format_then_parse [OF disjI2 [OF sample_db_digits] ws m] by blast
  moreover have "list_all (\<lambda>c. \<not> is_space sample_db c) ?s"
    using ws by (simp only: list_all_iff)
  ultimately show ?thesis
    using m sample_db_digits by blast
qed

end
